theory Spec2Isabelle
  imports Complex_Main "HOL-Library.AList" "HOL-Library.Multiset"
begin

section \<open>Numeric values\<close>

text \<open>
  The optimizer computes on numpy float64 values. They are modelled as exact reals
  extended by the three special values of IEEE arithmetic that the code can produce or
  test for: the two infinities and NaN (which pandas also uses as the missing-value
  sentinel). Rounding and the sign of zero are not modelled: every operation below is
  the exact real operation on finite operands, and follows the IEEE rules as soon as a
  special value or a division by zero is involved.
\<close>

datatype npfloat = Fin real | PInf | NInf | NaN

type_synonym vec = "npfloat list"
type_synonym matrix = "npfloat list list"

definition is_nan :: "npfloat \<Rightarrow> bool" where
  "is_nan v = (v = NaN)"

fun np_neg :: "npfloat \<Rightarrow> npfloat" where
  "np_neg (Fin a) = Fin (- a)"
| "np_neg PInf = NInf"
| "np_neg NInf = PInf"
| "np_neg NaN = NaN"

fun np_add :: "npfloat \<Rightarrow> npfloat \<Rightarrow> npfloat" where
  "np_add (Fin a) (Fin b) = Fin (a + b)"
| "np_add NaN b = NaN"
| "np_add a NaN = NaN"
| "np_add PInf NInf = NaN"
| "np_add NInf PInf = NaN"
| "np_add PInf b = PInf"
| "np_add a PInf = PInf"
| "np_add NInf b = NInf"
| "np_add a NInf = NInf"

definition np_sub :: "npfloat \<Rightarrow> npfloat \<Rightarrow> npfloat" where
  "np_sub a b = np_add a (np_neg b)"

fun np_mul :: "npfloat \<Rightarrow> npfloat \<Rightarrow> npfloat" where
  "np_mul (Fin a) (Fin b) = Fin (a * b)"
| "np_mul NaN b = NaN"
| "np_mul a NaN = NaN"
| "np_mul PInf (Fin b) = (if b = 0 then NaN else if 0 < b then PInf else NInf)"
| "np_mul NInf (Fin b) = (if b = 0 then NaN else if 0 < b then NInf else PInf)"
| "np_mul (Fin a) PInf = (if a = 0 then NaN else if 0 < a then PInf else NInf)"
| "np_mul (Fin a) NInf = (if a = 0 then NaN else if 0 < a then NInf else PInf)"
| "np_mul PInf PInf = PInf"
| "np_mul NInf NInf = PInf"
| "np_mul PInf NInf = NInf"
| "np_mul NInf PInf = NInf"

fun np_div :: "npfloat \<Rightarrow> npfloat \<Rightarrow> npfloat" where
  "np_div (Fin a) (Fin b) =
     (if b = 0 then (if a = 0 then NaN else if 0 < a then PInf else NInf)
      else Fin (a / b))"
| "np_div NaN b = NaN"
| "np_div a NaN = NaN"
| "np_div (Fin a) PInf = Fin 0"
| "np_div (Fin a) NInf = Fin 0"
| "np_div PInf (Fin b) = (if 0 \<le> b then PInf else NInf)"
| "np_div NInf (Fin b) = (if 0 \<le> b then NInf else PInf)"
| "np_div PInf PInf = NaN"
| "np_div PInf NInf = NaN"
| "np_div NInf PInf = NaN"
| "np_div NInf NInf = NaN"

fun np_sqrt :: "npfloat \<Rightarrow> npfloat" where
  "np_sqrt (Fin a) = (if a < 0 then NaN else Fin (sqrt a))"
| "np_sqrt PInf = PInf"
| "np_sqrt NInf = NaN"
| "np_sqrt NaN = NaN"

text \<open>Comparison \<open>a <= b\<close>: false as soon as an operand is NaN.\<close>

fun np_le :: "npfloat \<Rightarrow> npfloat \<Rightarrow> bool" where
  "np_le (Fin a) (Fin b) = (a \<le> b)"
| "np_le NaN b = False"
| "np_le a NaN = False"
| "np_le NInf b = True"
| "np_le a PInf = True"
| "np_le PInf b = False"
| "np_le a NInf = False"

text \<open>\<open>np.maximum\<close>: the larger operand, NaN if either is NaN.\<close>

fun np_maximum :: "npfloat \<Rightarrow> npfloat \<Rightarrow> npfloat" where
  "np_maximum NaN b = NaN"
| "np_maximum a NaN = NaN"
| "np_maximum a b = (if np_le a b then b else a)"

primrec np_sum :: "vec \<Rightarrow> npfloat" where
  "np_sum [] = Fin 0"
| "np_sum (v # vs) = np_add v (np_sum vs)"

datatype error = ValueError | LibraryError

text \<open>
  \<open>np.dot\<close> of two one-dimensional arrays, and of a two-dimensional array with a
  one-dimensional one. numpy raises ValueError when the shapes are not aligned.
\<close>

definition dot_vv :: "vec \<Rightarrow> vec \<Rightarrow> error + npfloat" where
  "dot_vv a b =
     (if length a = length b then Inr (np_sum (map2 np_mul a b)) else Inl ValueError)"

definition dot_mv :: "matrix \<Rightarrow> vec \<Rightarrow> error + vec" where
  "dot_mv m w =
     (if list_all (\<lambda>r. length r = length w) m
      then Inr (map (\<lambda>r. np_sum (map2 np_mul r w)) m)
      else Inl ValueError)"

text \<open>
  The array held in \<open>_cov_matrix\<close>: the one-dimensional empty array \<open>np.array([])\<close> that
  the constructor stores, or the two-dimensional array \<open>DataFrame.cov().values\<close>, given as
  the list of its rows. The latter is square, so with no row it is the 0 x 0 array.
\<close>

datatype ndarray = Empty1D | Array2D matrix

text \<open>The attribute \<open>size\<close>: the number of elements.\<close>

definition matrix_size :: "ndarray \<Rightarrow> nat" where
  "matrix_size a = (case a of Empty1D \<Rightarrow> 0 | Array2D m \<Rightarrow> sum_list (map length m))"

section \<open>Data frames\<close>

text \<open>
  A pandas DataFrame of floats: the column labels and the rows of cells, in index order.
  A missing cell is NaN. The index labels (dates) are not used by the code modelled here.
\<close>

record frame =
  columns :: "string list"
  rows :: "npfloat list list"

definition empty_frame :: frame where
  "empty_frame = \<lparr>columns = [], rows = []\<rparr>"

text \<open>\<open>DataFrame.empty\<close>: true when either axis has length 0.\<close>

definition frame_empty :: "frame \<Rightarrow> bool" where
  "frame_empty f = (columns f = [] \<or> rows f = [])"

text \<open>\<open>dropna(how="all")\<close> drops the rows whose cells are all missing.\<close>

definition dropna_all :: "frame \<Rightarrow> frame" where
  "dropna_all f = f\<lparr>rows := filter (\<lambda>r. \<not> list_all is_nan r) (rows f)\<rparr>"

text \<open>\<open>dropna()\<close> (how = any) drops the rows with at least one missing cell.\<close>

definition dropna_any :: "frame \<Rightarrow> frame" where
  "dropna_any f = f\<lparr>rows := filter (list_all (\<lambda>v. \<not> is_nan v)) (rows f)\<rparr>"

text \<open>
  \<open>pct_change()\<close> computes \<open>data / data.shift(1) - 1\<close>: the first row is all NaN.
  Depending on the pandas version its default \<open>fill_method\<close> is either to forward-fill
  missing cells first (pad) or not to fill; the choice is a parameter.
\<close>

fun ffill_rows :: "vec \<Rightarrow> vec list \<Rightarrow> vec list" where
  "ffill_rows prev [] = []"
| "ffill_rows prev (r # rs) =
     (let r' = map2 (\<lambda>p c. if is_nan c then p else c) prev r
      in r' # ffill_rows r' rs)"

definition ffill :: "frame \<Rightarrow> frame" where
  "ffill f = f\<lparr>rows := (case rows f of [] \<Rightarrow> [] | r # rs \<Rightarrow> r # ffill_rows r rs)\<rparr>"

definition pct_cell :: "npfloat \<Rightarrow> npfloat \<Rightarrow> npfloat" where
  "pct_cell prev cur = np_sub (np_div cur prev) (Fin 1)"

fun pct_rows :: "vec \<Rightarrow> vec list \<Rightarrow> vec list" where
  "pct_rows prev [] = []"
| "pct_rows prev (r # rs) = map2 pct_cell prev r # pct_rows r rs"

definition pct_change :: "bool \<Rightarrow> frame \<Rightarrow> frame" where
  "pct_change pad f =
     (let g = (if pad then ffill f else f)
      in g\<lparr>rows := (case rows g of [] \<Rightarrow> []
                     | r # rs \<Rightarrow> map (\<lambda>_. NaN) r # pct_rows r rs)\<rparr>)"

section \<open>Library functions taken as parameters\<close>

text \<open>
  \<open>scipy.optimize.minimize\<close> is called with the objective, the initial guess, the
  method name, the bounds, the equality constraint function and the options; it gives
  back a result object, of which the code reads \<open>success\<close> and \<open>x\<close>.
\<close>

record solver_options =
  maxiter :: nat
  ftol :: real

record optimize_result =
  res_success :: bool
  res_x :: vec

type_synonym minimize_fn =
  "(vec \<Rightarrow> error + npfloat) \<Rightarrow> vec \<Rightarrow> string \<Rightarrow> (npfloat \<times> npfloat) list
     \<Rightarrow> (vec \<Rightarrow> npfloat) \<Rightarrow> solver_options \<Rightarrow> error + optimize_result"

text \<open>
  The numeric library as the optimizer uses it: whether \<open>pct_change\<close> pads,
  \<open>DataFrame.mean\<close>, \<open>DataFrame.cov\<close> and \<open>minimize\<close>.
\<close>

record numlib =
  pct_change_pads :: bool
  frame_mean :: "frame \<Rightarrow> vec"
  frame_cov :: "frame \<Rightarrow> matrix"
  minimize :: minimize_fn

section \<open>PortfolioOptimizer (optimization/markowitz.py)\<close>

record optimizer =
  risk_free_rate :: npfloat
  prices :: frame
  returns :: frame
  cov_matrix :: ndarray
  mean_returns :: vec

definition init_optimizer :: "npfloat \<Rightarrow> optimizer" where
  "init_optimizer rf =
     \<lparr>risk_free_rate = rf, prices = empty_frame, returns = empty_frame,
      cov_matrix = Empty1D, mean_returns = []\<rparr>"

definition set_prices :: "numlib \<Rightarrow> optimizer \<Rightarrow> frame \<Rightarrow> optimizer" where
  "set_prices lib self prices_df =
     (let prices' = dropna_all prices_df;
          returns' = dropna_any (pct_change (pct_change_pads lib) prices')
      in self\<lparr>prices := prices',
              returns := returns',
              mean_returns := map (\<lambda>v. np_mul v (Fin 252)) (frame_mean lib returns'),
              cov_matrix :=
                Array2D (map (map (\<lambda>v. np_mul v (Fin 252))) (frame_cov lib returns'))\<rparr>)"

text \<open>
  The volatility \<open>sqrt(w . (C . w))\<close>. On the initial one-dimensional empty array the
  products do not give a scalar: for non-empty weights \<open>np.dot\<close> raises ValueError, and for
  empty weights the result is an empty array, on which the test \<open>port_vol <= 0\<close> raises
  ValueError (numpy before 2.2 warns and goes on to return an empty array).
\<close>

definition port_vol :: "optimizer \<Rightarrow> vec \<Rightarrow> error + npfloat" where
  "port_vol self weights =
     (case cov_matrix self of
        Empty1D \<Rightarrow> Inl ValueError
      | Array2D m \<Rightarrow>
         (case dot_mv m weights of
            Inl e \<Rightarrow> Inl e
          | Inr cw \<Rightarrow> (case dot_vv weights cw of
               Inl e \<Rightarrow> Inl e
             | Inr q \<Rightarrow> Inr (np_sqrt q))))"

definition negative_sharpe :: "optimizer \<Rightarrow> vec \<Rightarrow> error + npfloat" where
  "negative_sharpe self weights =
     (case dot_vv weights (mean_returns self) of
        Inl e \<Rightarrow> Inl e
      | Inr port_return \<Rightarrow>
         (case port_vol self weights of
            Inl e \<Rightarrow> Inl e
          | Inr vol \<Rightarrow>
             if np_le vol (Fin 0) then Inr (Fin 0)
             else Inr (np_neg (np_div (np_sub port_return (risk_free_rate self)) vol))))"

text \<open>\<open>dict(pairs)\<close>: keys in order of first insertion, the last value of a key wins.\<close>

definition py_dict :: "('k \<times> 'v) list \<Rightarrow> ('k \<times> 'v) list" where
  "py_dict kvs = fold (\<lambda>(k, v) d. AList.update k v d) kvs []"

definition equal_weights :: "nat \<Rightarrow> vec" where
  "equal_weights n = map (\<lambda>v. np_div v (Fin (real n))) (replicate n (Fin 1))"

definition clip_weights :: "vec \<Rightarrow> vec" where
  "clip_weights w = map (\<lambda>v. np_maximum v (Fin 0)) w"

definition renormalize :: "vec \<Rightarrow> vec" where
  "renormalize w = map (\<lambda>v. np_div v (np_sum w)) w"

definition optimize_sharpe_ratio ::
  "numlib \<Rightarrow> optimizer \<Rightarrow> error + (string \<times> npfloat) list" where
  "optimize_sharpe_ratio lib self =
     (if frame_empty (returns self) \<or> matrix_size (cov_matrix self) = 0 then Inr []
      else
        let n = length (columns (returns self));
            tickers = columns (returns self);
            bounds = replicate n (Fin 0, Fin 1);
            constraint = (\<lambda>w. np_sub (np_sum w) (Fin 1));
            x0 = equal_weights n
        in case minimize lib (negative_sharpe self) x0 ''SLSQP'' bounds constraint
                  \<lparr>maxiter = 500, ftol = 1 / 10 ^ 9\<rparr> of
             Inl e \<Rightarrow> Inl e
           | Inr result \<Rightarrow>
               let weights = (if \<not> res_success result then equal_weights n
                              else renormalize (clip_weights (res_x result)))
               in Inr (py_dict (zip tickers weights)))"

section \<open>FundamentalScreener (analysis/screener.py)\<close>

text \<open>
  One row of fundamental metrics. A metric is a finite float, idealised as a real, or
  missing (\<open>None\<close> or NaN in the source, \<open>None\<close> here).
\<close>

record metrics =
  Ticker :: string
  ROE :: "real option"
  DebtToEquity :: "real option"
  ProfitMargin :: "real option"
  PEG :: "real option"

record screener =
  min_roe :: real
  max_debt_to_equity :: real
  min_profit_margin :: real
  max_peg :: real
  top_n :: int

definition default_screener :: screener where
  "default_screener =
     \<lparr>min_roe = 15 / 100, max_debt_to_equity = 1, min_profit_margin = 10 / 100,
      max_peg = 2, top_n = 15\<rparr>"

definition score_row :: "screener \<Rightarrow> metrics \<Rightarrow> real" where
  "score_row self row =
     (let score = 0;
          score = (case ROE row of
                     Some v \<Rightarrow> if v \<ge> min_roe self
                               then score + (1 + min (v - min_roe self) (2 / 10))
                               else score
                   | None \<Rightarrow> score);
          score = (case DebtToEquity row of
                     Some v \<Rightarrow> if v \<le> max_debt_to_equity self then score + 1 else score
                   | None \<Rightarrow> score);
          score = (case ProfitMargin row of
                     Some v \<Rightarrow> if v \<ge> min_profit_margin self then score + 1 else score
                   | None \<Rightarrow> score);
          score = (case PEG row of
                     Some v \<Rightarrow> if v < max_peg self \<and> v > 0 then score + 1 else score
                   | None \<Rightarrow> score)
      in score)"

text \<open>The filter mask of \<open>filter_stocks\<close>, for one row.\<close>

definition mask_row :: "screener \<Rightarrow> metrics \<Rightarrow> bool" where
  "mask_row self row =
     ((case ROE row of None \<Rightarrow> True | Some v \<Rightarrow> v \<ge> min_roe self) \<and>
      (case DebtToEquity row of None \<Rightarrow> True | Some v \<Rightarrow> v \<le> max_debt_to_equity self) \<and>
      (case ProfitMargin row of None \<Rightarrow> True | Some v \<Rightarrow> v \<ge> min_profit_margin self) \<and>
      (case PEG row of None \<Rightarrow> True | Some v \<Rightarrow> v > 0 \<and> v < max_peg self))"

text \<open>\<open>DataFrame.head(n)\<close>: the first \<open>n\<close> rows, all but the last \<open>-n\<close> when \<open>n\<close> is negative.\<close>

definition head :: "int \<Rightarrow> 'a list \<Rightarrow> 'a list" where
  "head n xs = (if 0 \<le> n then take (nat n) xs else take (length xs - nat (- n)) xs)"

text \<open>
  The screener's collaborators: the metrics fetch \<open>_get_metrics\<close> (a network call, which
  gives nothing for a ticker whose fetch fails) and pandas'
  \<open>sort_values("Score", ascending=False)\<close> on rows paired with their score.
\<close>

type_synonym scored = "metrics \<times> real"

record screenlib =
  get_metrics :: "string \<Rightarrow> metrics option"
  sort_values_desc :: "scored list \<Rightarrow> scored list"

definition filter_stocks :: "screenlib \<Rightarrow> screener \<Rightarrow> string list \<Rightarrow> scored list" where
  "filter_stocks lib self tickers =
     (let rows = List.map_filter (get_metrics lib) tickers
      in if rows = [] then []
         else
           let df = filter (mask_row self) rows;
               df = map (\<lambda>row. (row, score_row self row)) df
           in head (top_n self) (sort_values_desc lib df))"

text \<open>
  What pandas documents for \<open>sort_values\<close> with its default \<open>kind\<close> (quicksort, which is
  not a stable algorithm): the result holds the same rows, in descending order of the key.
\<close>

definition sorts_descending :: "(scored list \<Rightarrow> scored list) \<Rightarrow> bool" where
  "sorts_descending srt =
     (\<forall>xs. sorted_wrt (\<lambda>a b. snd b \<le> snd a) (srt xs) \<and> mset (srt xs) = mset xs)"

text \<open>Two sorts that meet it: a stable one, and one that reverses equal keys.\<close>

definition stable_sort_desc :: "scored list \<Rightarrow> scored list" where
  "stable_sort_desc xs = sort_key (\<lambda>p. - snd p) xs"

definition reversing_sort_desc :: "scored list \<Rightarrow> scored list" where
  "reversing_sort_desc xs = rev (sort_key snd xs)"

section \<open>The solver call and its contract\<close>

text \<open>The call of \<open>minimize\<close> made by \<open>optimize_sharpe_ratio\<close>, on its own.\<close>

definition minimize_call :: "numlib \<Rightarrow> optimizer \<Rightarrow> error + optimize_result" where
  "minimize_call lib self =
     (let n = length (columns (returns self))
      in minimize lib (negative_sharpe self) (equal_weights n) ''SLSQP''
           (replicate n (Fin 0, Fin 1)) (\<lambda>w. np_sub (np_sum w) (Fin 1))
           \<lparr>maxiter = 500, ftol = 1 / 10 ^ 9\<rparr>)"

text \<open>
  What SLSQP promises of a result it reports as successful, up to a tolerance: every
  component is a finite number within the box bounds, and the components sum to 1.
\<close>

definition slsqp_feasible :: "real \<Rightarrow> vec \<Rightarrow> bool" where
  "slsqp_feasible tol x =
     (list_all (\<lambda>v. case v of Fin r \<Rightarrow> - tol \<le> r \<and> r \<le> 1 + tol | _ \<Rightarrow> False) x \<and>
      (case np_sum x of Fin s \<Rightarrow> \<bar>s - 1\<bar> \<le> tol | _ \<Rightarrow> False))"

section \<open>Prices\<close>

text \<open>A cell that holds a price: a finite number other than zero; and the number it holds.\<close>

definition is_price :: "npfloat \<Rightarrow> bool" where
  "is_price c = (case c of Fin p \<Rightarrow> p \<noteq> 0 | _ \<Rightarrow> False)"

fun fin_val :: "npfloat \<Rightarrow> real" where
  "fin_val (Fin r) = r"
| "fin_val _ = 0"

section \<open>Screening criteria in the words of the specification\<close>

text \<open>
  A criterion is passed with its metric present (\<open>roe_ok\<close> and the like); the ROE bonus;
  a row meets the criteria when each metric is missing or passes; the rows fetched for a
  list of tickers; the rows that pass the mask, with their score; and stability of a
  sort on equal keys.
\<close>

definition roe_ok :: "screener \<Rightarrow> metrics \<Rightarrow> bool" where
  "roe_ok self row = (case ROE row of Some v \<Rightarrow> v \<ge> min_roe self | None \<Rightarrow> False)"

definition debt_ok :: "screener \<Rightarrow> metrics \<Rightarrow> bool" where
  "debt_ok self row =
     (case DebtToEquity row of Some v \<Rightarrow> v \<le> max_debt_to_equity self | None \<Rightarrow> False)"

definition margin_ok :: "screener \<Rightarrow> metrics \<Rightarrow> bool" where
  "margin_ok self row =
     (case ProfitMargin row of Some v \<Rightarrow> v \<ge> min_profit_margin self | None \<Rightarrow> False)"

definition peg_ok :: "screener \<Rightarrow> metrics \<Rightarrow> bool" where
  "peg_ok self row = (case PEG row of Some v \<Rightarrow> v < max_peg self \<and> v > 0 | None \<Rightarrow> False)"

definition roe_bonus :: "screener \<Rightarrow> metrics \<Rightarrow> real" where
  "roe_bonus self row =
     (case ROE row of Some v \<Rightarrow> min (v - min_roe self) (2 / 10) | None \<Rightarrow> 0)"


definition fetched :: "screenlib \<Rightarrow> string list \<Rightarrow> metrics list" where
  "fetched lib tickers = List.map_filter (get_metrics lib) tickers"

definition scored_rows :: "screenlib \<Rightarrow> screener \<Rightarrow> string list \<Rightarrow> scored list" where
  "scored_rows lib self tickers =
     map (\<lambda>row. (row, score_row self row)) (filter (mask_row self) (fetched lib tickers))"

definition stable_on_ties :: "(scored list \<Rightarrow> scored list) \<Rightarrow> bool" where
  "stable_on_ties srt =
     (\<forall>xs k. filter (\<lambda>p. snd p = k) (srt xs) = filter (\<lambda>p. snd p = k) xs)"

section \<open>Example inputs\<close>

subsection \<open>For the optimizer\<close>

definition example_returns :: frame where
  "example_returns =
     \<lparr>columns = [''AAA'', ''BBB''],
      rows = [[Fin (1 / 100), Fin (2 / 100)], [Fin (3 / 100), Fin (- 1 / 100)]]\<rparr>"

definition example_optimizer :: optimizer where
  "example_optimizer =
     \<lparr>risk_free_rate = Fin (2 / 100), prices = empty_frame, returns = example_returns,
      cov_matrix = Array2D [[Fin 1, Fin 0], [Fin 0, Fin 1]],
      mean_returns = [Fin 5, Fin 3]\<rparr>"



definition one_row_prices :: frame where
  "one_row_prices =
     \<lparr>columns = [''AAA'', ''BBB''], rows = [[NaN, NaN], [Fin 10, Fin 20]]\<rparr>"

definition leading_nan_prices :: frame where
  "leading_nan_prices =
     \<lparr>columns = [''AAA'', ''BBB''],
      rows = [[Fin 1, NaN], [Fin 2, Fin 3], [Fin 3, Fin 4]]\<rparr>"

definition example_prices :: frame where
  "example_prices =
     \<lparr>columns = [''AAA'', ''BBB''],
      rows = [[NaN, NaN], [Fin 100, Fin 50], [Fin 110, Fin 40], [Fin 121, Fin 50]]\<rparr>"

text \<open>
  Two instances of the numeric library for the examples: the mean of each column and the
  sample covariance of each pair of columns, with a solver that reports failure, and with
  one that reports success at the weights 3/4 and 1/4. The covariance divides by the
  number of rows less one, taken as 0 when there are fewer than two rows, as numpy does:
  the result is then NaN.
\<close>

definition column :: "frame \<Rightarrow> nat \<Rightarrow> vec" where
  "column f j = map (\<lambda>r. r ! j) (rows f)"

definition sample_mean :: "frame \<Rightarrow> vec" where
  "sample_mean f =
     map (\<lambda>j. np_div (np_sum (column f j)) (Fin (real (length (rows f)))))
       [0..<length (columns f)]"

definition sample_cov :: "frame \<Rightarrow> matrix" where
  "sample_cov f =
     map (\<lambda>i. map (\<lambda>j.
         np_div
           (np_sum (map2 np_mul
              (map (\<lambda>v. np_sub v (sample_mean f ! i)) (column f i))
              (map (\<lambda>v. np_sub v (sample_mean f ! j)) (column f j))))
           (Fin (real (length (rows f) - 1))))
       [0..<length (columns f)]) [0..<length (columns f)]"

definition failing_lib :: numlib where
  "failing_lib =
     \<lparr>pct_change_pads = False, frame_mean = sample_mean, frame_cov = sample_cov,
      minimize = (\<lambda>f x0 m b c opts. Inr \<lparr>res_success = False, res_x = []\<rparr>)\<rparr>"

definition converging_lib :: numlib where
  "converging_lib =
     \<lparr>pct_change_pads = True, frame_mean = sample_mean, frame_cov = sample_cov,
      minimize = (\<lambda>f x0 m b c opts.
         Inr \<lparr>res_success = True, res_x = [Fin (3 / 4), Fin (1 / 4)]\<rparr>)\<rparr>"

subsection \<open>For the screener\<close>

definition row_all :: metrics where
  "row_all = \<lparr>Ticker = ''AAA'', ROE = Some (25 / 100), DebtToEquity = Some (1 / 2),
              ProfitMargin = Some (2 / 10), PEG = Some 1\<rparr>"

definition row_no_peg :: metrics where
  "row_no_peg = \<lparr>Ticker = ''BBB'', ROE = Some (25 / 100), DebtToEquity = Some (1 / 2),
                 ProfitMargin = Some (2 / 10), PEG = None\<rparr>"

definition row_no_roe :: metrics where
  "row_no_roe = \<lparr>Ticker = ''CCC'', ROE = None, DebtToEquity = Some (1 / 2),
                 ProfitMargin = Some (2 / 10), PEG = Some 1\<rparr>"

definition row_ddd :: metrics where
  "row_ddd = row_no_roe\<lparr>Ticker := ''DDD''\<rparr>"

definition example_fetch :: "string \<Rightarrow> metrics option" where
  "example_fetch t =
     (if t = ''AAA'' then Some row_all
      else if t = ''BBB'' then Some row_no_peg
      else if t = ''CCC'' then Some row_no_roe
      else if t = ''DDD'' then Some row_ddd
      else None)"

definition stable_screenlib :: screenlib where
  "stable_screenlib = \<lparr>get_metrics = example_fetch, sort_values_desc = stable_sort_desc\<rparr>"

definition reversing_screenlib :: screenlib where
  "reversing_screenlib =
     \<lparr>get_metrics = example_fetch, sort_values_desc = reversing_sort_desc\<rparr>"

definition top1_screener :: screener where
  "top1_screener = default_screener\<lparr>top_n := 1\<rparr>"

definition minus1_screener :: screener where
  "minus1_screener = default_screener\<lparr>top_n := - 1\<rparr>"

section \<open>Auxiliary lemmas\<close>

lemma optimize_unfold:
  "optimize_sharpe_ratio lib self =
     (if frame_empty (returns self) \<or> matrix_size (cov_matrix self) = 0 then Inr []
      else case minimize_call lib self of
             Inl e \<Rightarrow> Inl e
           | Inr result \<Rightarrow>
               Inr (py_dict (zip (columns (returns self))
                      (if \<not> res_success result
                       then equal_weights (length (columns (returns self)))
                       else renormalize (clip_weights (res_x result))))))"
  by (simp add: optimize_sharpe_ratio_def minimize_call_def Let_def split: sum.split)

lemma np_sum_Fin: "np_sum (map Fin xs) = Fin (sum_list xs)"
  by (induction xs) simp_all

lemma equal_weights_eq: "0 < n \<Longrightarrow> equal_weights n = replicate n (Fin (1 / real n))"
  by (simp add: equal_weights_def )

lemma update_fresh: "k \<notin> fst ` set al \<Longrightarrow> AList.update k v al = al @ [(k, v)]"
  by (induction al) auto

lemma fold_update_distinct:
  "distinct (map fst (acc @ kvs)) \<Longrightarrow>
   fold (\<lambda>(k, v) d. AList.update k v d) kvs acc = acc @ kvs"
proof (induction kvs arbitrary: acc)
  case Nil
  then show ?case by simp
next
  case (Cons p kvs)
  obtain k v where p: "p = (k, v)" by (cases p)
  from Cons.prems p have fresh: "k \<notin> fst ` set acc" by auto
  from Cons.prems p have "distinct (map fst ((acc @ [(k, v)]) @ kvs))" by simp
  from Cons.IH [OF this] show ?case using p fresh by (simp add: update_fresh)
qed

lemma py_dict_distinct: "distinct (map fst kvs) \<Longrightarrow> py_dict kvs = kvs"
  using fold_update_distinct [of "[]" kvs] by (simp add: py_dict_def)


lemma map_of_fold_update:
  "map_of (fold (\<lambda>(k, v) d. AList.update k v d) kvs acc) =
   fold (\<lambda>(k, v) m. m(k \<mapsto> v)) kvs (map_of acc)"
proof (induction kvs arbitrary: acc)
  case Nil
  show ?case by simp
next
  case (Cons p kvs)
  obtain k v where p: "p = (k, v)" by (cases p)
  show ?case unfolding p by (simp add: Cons.IH update_conv')
qed

lemma fold_upd_const:
  assumes F: "\<And>k v m. F (k, v) m = m(k \<mapsto> v)"
  shows "\<forall>p \<in> set kvs. snd p = c \<Longrightarrow> t \<in> fst ` set kvs \<Longrightarrow> fold F kvs m t = Some c"
proof (induction kvs arbitrary: m rule: rev_induct)
  case Nil
  then show ?case by simp
next
  case (snoc p kvs)
  obtain k v where p: "p = (k, v)" by (cases p)
  have step: "fold F (kvs @ [p]) m = (fold F kvs m)(k \<mapsto> v)"
    by (simp add: p F)
  show ?case
  proof (cases "t = k")
    case True
    from snoc.prems(1) p have "v = c" by simp
    with True step show ?thesis by simp
  next
    case False
    with snoc.prems p have "t \<in> fst ` set kvs" by auto
    moreover from snoc.prems(1) have "\<forall>p \<in> set kvs. snd p = c" by simp
    ultimately have "fold F kvs m t = Some c"
      by (rule snoc.IH [rotated])
    with False step show ?thesis by simp
  qed
qed

lemma keys_fold_update:
  "fst ` set (fold (\<lambda>(k, v) d. AList.update k v d) kvs acc) = fst ` set acc \<union> fst ` set kvs"
proof (induction kvs arbitrary: acc)
  case Nil
  show ?case by simp
next
  case (Cons p kvs)
  obtain k v where p: "p = (k, v)" by (cases p)
  show ?case unfolding p by (simp add: Cons.IH dom_update)
qed

lemma py_dict_keys: "fst ` set (py_dict kvs) = fst ` set kvs"
  by (simp add: py_dict_def keys_fold_update)

lemma py_dict_const:
  assumes "\<forall>p \<in> set kvs. snd p = c" and "t \<in> fst ` set kvs"
  shows "map_of (py_dict kvs) t = Some c"
proof -
  have "fold (\<lambda>(k, v) m. m(k \<mapsto> v)) kvs (map_of []) t = Some c"
    by (rule fold_upd_const [OF _ assms]) simp
  then show ?thesis by (simp add: py_dict_def map_of_fold_update)
qed

lemma feasible_reals:
  assumes "slsqp_feasible tol x"
  shows "\<exists>rs. x = map Fin rs \<and> \<bar>sum_list rs - 1\<bar> \<le> tol"
proof -
  have all_fin: "\<forall>v \<in> set x. \<exists>r. v = Fin r"
  proof
    fix v assume "v \<in> set x"
    with assms have "case v of Fin r \<Rightarrow> - tol \<le> r \<and> r \<le> 1 + tol | _ \<Rightarrow> False"
      by (simp add: slsqp_feasible_def list_all_iff)
    then show "\<exists>r. v = Fin r" by (cases v) simp_all
  qed
  have "\<exists>rs. x = map Fin rs" using all_fin
  proof (induction x)
    case Nil
    show ?case by simp
  next
    case (Cons v vs)
    then obtain r rs where "v = Fin r" "vs = map Fin rs" by auto
    then have "v # vs = map Fin (r # rs)" by simp
    then show ?case by (rule exI [of _ "r # rs"])
  qed
  then obtain rs where rs: "x = map Fin rs" ..
  with assms have "\<bar>sum_list rs - 1\<bar> \<le> tol"
    by (simp add: slsqp_feasible_def np_sum_Fin)
  with rs show ?thesis by blast
qed

lemma clip_weights_Fin: "clip_weights (map Fin rs) = map Fin (map (\<lambda>r. max r 0) rs)"
  by (induction rs) (auto simp: clip_weights_def max_def)

lemma renormalize_Fin:
  "sum_list rs \<noteq> 0 \<Longrightarrow>
   renormalize (map Fin rs) = map Fin (map (\<lambda>r. r / sum_list rs) rs)"
  by (simp add: renormalize_def np_sum_Fin)

lemma sum_list_clip_ge:
  fixes rs :: "real list"
  shows "sum_list rs \<le> sum_list (map (\<lambda>r. max r 0) rs)"
proof (induction rs)
  case Nil
  show ?case by simp
next
  case (Cons a rs)
  have "a \<le> max a 0" by simp
  with Cons.IH show ?case by (simp add: add_mono)
qed

lemma member_le_sum_list_real:
  fixes xs :: "real list"
  shows "\<forall>x \<in> set xs. 0 \<le> x \<Longrightarrow> y \<in> set xs \<Longrightarrow> y \<le> sum_list xs"
proof (induction xs)
  case Nil
  then show ?case by simp
next
  case (Cons a xs)
  then have "0 \<le> sum_list xs" by (simp add: sum_list_nonneg)
  with Cons show ?case by auto
qed

lemma sum_list_divide_real:
  fixes rs :: "real list"
  shows "sum_list (map (\<lambda>r. r / s) rs) = sum_list rs / s"
  by (induction rs) (simp_all add: add_divide_distrib)

lemma optimize_distinct:
  assumes "\<not> frame_empty (returns self)" and "matrix_size (cov_matrix self) \<noteq> 0"
    and "distinct (columns (returns self))"
    and "minimize_call lib self = Inr result"
    and len: "length ws = length (columns (returns self))"
    and ws: "(if \<not> res_success result then equal_weights (length (columns (returns self)))
              else renormalize (clip_weights (res_x result))) = ws"
  shows "optimize_sharpe_ratio lib self = Inr (zip (columns (returns self)) ws)"
proof -
  have "optimize_sharpe_ratio lib self = Inr (py_dict (zip (columns (returns self)) ws))"
  proof (cases "res_success result")
    case True
    with ws have "renormalize (clip_weights (res_x result)) = ws" by simp
    with True assms(1,2,4) show ?thesis by (simp add: optimize_unfold)
  next
    case False
    with ws have "equal_weights (length (columns (returns self))) = ws" by simp
    with False assms(1,2,4) show ?thesis by (simp add: optimize_unfold)
  qed
  moreover have "map fst (zip (columns (returns self)) ws) = columns (returns self)"
    using len by simp
  then have "py_dict (zip (columns (returns self)) ws) = zip (columns (returns self)) ws"
    using assms(3) by (intro py_dict_distinct) simp
  ultimately show ?thesis by simp
qed

lemma unit_fraction_bounds:
  assumes "0 < n"
  shows "0 \<le> 1 / real n" and "1 / real n \<le> 1"
proof -
  from assms have "1 \<le> real n" by (simp add: Suc_le_eq)
  then show "0 \<le> 1 / real n" and "1 / real n \<le> 1" by simp_all
qed

lemma sum_replicate_unit:
  assumes "0 < n"
  shows "sum_list (replicate n (1 / real n)) = 1"
proof -
  from assms have "real n \<noteq> 0" by simp
  then have "real n * (1 / real n) = 1" by simp
  then show ?thesis by (simp only: sum_list_replicate)
qed

lemma score_row_sum:
  "score_row self row =
     (if roe_ok self row then 1 + roe_bonus self row else 0) +
     (if debt_ok self row then 1 else 0) +
     (if margin_ok self row then 1 else 0) +
     (if peg_ok self row then 1 else 0)"
  by (simp add: score_row_def roe_ok_def debt_ok_def margin_ok_def peg_ok_def roe_bonus_def
      Let_def split: option.split)

lemma roe_bonus_bounds: "roe_ok self row \<Longrightarrow> 0 \<le> roe_bonus self row \<and> roe_bonus self row \<le> 2 / 10"
proof (cases "ROE row")
  case None
  then show ?thesis by (simp add: roe_bonus_def)
next
  case (Some v)
  assume "roe_ok self row"
  with Some have "min_roe self \<le> v" by (simp add: roe_ok_def)
  then have "0 \<le> min (v - min_roe self) (2 / 10)" and "min (v - min_roe self) (2 / 10) \<le> 2 / 10"
    by (simp_all add: min_def)
  with Some show ?thesis by (simp add: roe_bonus_def)
qed

lemma filter_stocks_unfold:
  "filter_stocks lib self tickers =
     head (top_n self) (sort_values_desc lib (scored_rows lib self tickers)) \<or>
   filter_stocks lib self tickers = [] \<and> scored_rows lib self tickers = []"
  by (simp add: filter_stocks_def scored_rows_def fetched_def Let_def)



lemma length_head: "0 \<le> n \<Longrightarrow> int (length (head n xs)) \<le> n"
  by (simp add: head_def)


lemma sorts_descending_length: "sorts_descending srt \<Longrightarrow> length (srt xs) = length xs"
  by (metis sorts_descending_def size_mset)



lemma stable_sort_desc_contract: "sorts_descending stable_sort_desc"
proof -
  have "sorted_wrt (\<lambda>a b. snd b \<le> snd a) (sort_key (\<lambda>p. - snd p) xs)" for xs :: "scored list"
  proof -
    have "sorted (map (\<lambda>p. - snd p) (sort_key (\<lambda>p. - snd p) xs))" by (rule sorted_sort_key)
    then show ?thesis by (simp add: sorted_map)
  qed
  then show ?thesis by (simp add: sorts_descending_def stable_sort_desc_def)
qed

lemma reversing_sort_desc_contract: "sorts_descending reversing_sort_desc"
proof -
  have "sorted_wrt (\<lambda>a b. snd b \<le> snd a) (rev (sort_key snd xs))" for xs :: "scored list"
  proof -
    have "sorted (map snd (sort_key snd xs))" by (rule sorted_sort_key)
    then have "sorted_wrt (\<lambda>a b. snd a \<le> snd b) (sort_key snd xs)" by (simp add: sorted_map)
    then show ?thesis by (simp add: sorted_wrt_rev)
  qed
  then show ?thesis by (simp add: sorts_descending_def reversing_sort_desc_def)
qed

lemma stable_sort_desc_stable: "stable_on_ties stable_sort_desc"
proof -
  have "filter (\<lambda>p. snd p = k) (sort_key (\<lambda>p. - snd p) xs) = filter (\<lambda>p. snd p = k) xs"
    for k :: real and xs :: "scored list"
    using sort_key_stable [of "\<lambda>p. - snd p" "- k" xs] by simp
  then show ?thesis by (simp add: stable_on_ties_def stable_sort_desc_def)
qed

lemma stable_sort_unique:
  assumes "sorts_descending srt" and "stable_on_ties srt"
  shows "srt xs = stable_sort_desc xs"
proof -
  from assms(1) have m: "mset (srt xs) = mset xs"
    and s: "sorted_wrt (\<lambda>a b. snd b \<le> snd a) (srt xs)"
    by (simp_all add: sorts_descending_def)
  have ties: "filter (\<lambda>x. - snd k = - snd x) (srt xs) = filter (\<lambda>x. - snd k = - snd x) xs"
    for k :: scored
  proof -
    have "(\<lambda>x :: scored. - snd k = - snd x) = (\<lambda>x. snd x = snd k)" by auto
    with assms(2) show ?thesis by (simp add: stable_on_ties_def)
  qed
  from s have "sorted (map (\<lambda>p. - snd p) (srt xs))" by (simp add: sorted_map)
  with m ties have "sort_key (\<lambda>p. - snd p) xs = srt xs"
    by (intro properties_for_sort_key)
  then show ?thesis by (simp add: stable_sort_desc_def)
qed

lemma sorted_wrt_head: "sorted_wrt P xs \<Longrightarrow> sorted_wrt P (head n xs)"
  by (simp add: head_def)

lemma example_scores:
  "score_row default_screener row_all = 41 / 10"
  "score_row default_screener row_no_peg = 31 / 10"
  "score_row default_screener row_no_roe = 3"
  "score_row default_screener row_ddd = 3"
  by (simp_all add: score_row_def default_screener_def row_all_def row_no_peg_def
      row_no_roe_def row_ddd_def Let_def)

lemma example_masks:
  "mask_row default_screener row_all" "mask_row default_screener row_no_peg"
  "mask_row default_screener row_no_roe" "mask_row default_screener row_ddd"
  by (simp_all add: mask_row_def default_screener_def row_all_def row_no_peg_def
      row_no_roe_def row_ddd_def)

lemma top1_scores:
  "score_row top1_screener row_all = 41 / 10"
  "score_row top1_screener row_no_peg = 31 / 10"
  by (simp_all add: score_row_def top1_screener_def default_screener_def row_all_def
      row_no_peg_def Let_def)

lemma minus1_masks:
  "mask_row minus1_screener row_all" "mask_row minus1_screener row_no_peg"
  "mask_row minus1_screener row_no_roe"
  by (simp_all add: mask_row_def minus1_screener_def default_screener_def row_all_def
      row_no_peg_def row_no_roe_def)

lemma top1_masks:
  "mask_row top1_screener row_all" "mask_row top1_screener row_no_peg"
  by (simp_all add: mask_row_def top1_screener_def default_screener_def row_all_def
      row_no_peg_def)

lemma is_price_not_nan: "is_price c \<Longrightarrow> \<not> is_nan c"
  by (cases c) (simp_all add: is_price_def is_nan_def)

lemma ffill_row_id:
  "length p = length r \<Longrightarrow> \<forall>c \<in> set r. \<not> is_nan c \<Longrightarrow>
   map2 (\<lambda>p c. if is_nan c then p else c) p r = r"
  by (induction p r rule: list_induct2) simp_all

lemma ffill_rows_id:
  "\<forall>r \<in> set rs. length r = length prev \<and> (\<forall>c \<in> set r. \<not> is_nan c) \<Longrightarrow>
   ffill_rows prev rs = rs"
proof (induction rs arbitrary: prev)
  case Nil
  show ?case by simp
next
  case (Cons r rs)
  then have "map2 (\<lambda>p c. if is_nan c then p else c) prev r = r"
    by (intro ffill_row_id) simp_all
  moreover from Cons.prems have "\<forall>q \<in> set rs. length q = length r \<and> (\<forall>c \<in> set q. \<not> is_nan c)"
    by simp
  then have "ffill_rows r rs = rs" by (rule Cons.IH)
  ultimately show ?case by (simp add: Let_def)
qed

lemma length_pct_rows: "length (pct_rows prev rs) = length rs"
  by (induction rs arbitrary: prev) simp_all

lemma nth_pct_rows:
  "t < length rs \<Longrightarrow> pct_rows prev rs ! t = map2 pct_cell ((prev # rs) ! t) (rs ! t)"
proof (induction rs arbitrary: prev t)
  case Nil
  then show ?case by simp
next
  case (Cons r rs)
  show ?case
  proof (cases t)
    case 0
    then show ?thesis by simp
  next
    case (Suc u)
    with Cons.prems have "u < length rs" by simp
    from Cons.IH [OF this, of r] Suc show ?thesis by simp
  qed
qed

lemma pct_cell_price:
  "is_price p \<Longrightarrow> is_price c \<Longrightarrow>
   pct_cell p c = Fin ((fin_val c - fin_val p) / fin_val p)"
  by (cases p; cases c) (simp_all add: is_price_def pct_cell_def np_sub_def field_simps)

lemma pct_row_price:
  assumes "length p = length r" and "list_all is_price p" and "list_all is_price r"
  shows "length (map2 pct_cell p r) = length r"
    and "list_all (\<lambda>v. \<not> is_nan v) (map2 pct_cell p r)"
    and "j < length r \<Longrightarrow>
         map2 pct_cell p r ! j = Fin ((fin_val (r ! j) - fin_val (p ! j)) / fin_val (p ! j))"
proof -
  show "length (map2 pct_cell p r) = length r" using assms(1) by simp
  have cell: "map2 pct_cell p r ! j = Fin ((fin_val (r ! j) - fin_val (p ! j)) / fin_val (p ! j))"
    if "j < length r" for j
  proof -
    from that assms have "is_price (p ! j)" "is_price (r ! j)"
      by (simp_all add: list_all_length)
    with that assms(1) show ?thesis by (simp add: pct_cell_price)
  qed
  then show "j < length r \<Longrightarrow>
      map2 pct_cell p r ! j = Fin ((fin_val (r ! j) - fin_val (p ! j)) / fin_val (p ! j))" .
  show "list_all (\<lambda>v. \<not> is_nan v) (map2 pct_cell p r)"
    unfolding list_all_length
  proof (intro allI impI)
    fix j assume "j < length (map2 pct_cell p r)"
    with assms(1) have "j < length r" by simp
    from cell [OF this] show "\<not> is_nan (map2 pct_cell p r ! j)" by (simp add: is_nan_def)
  qed
qed

lemma pct_rows_no_nan:
  "\<forall>r \<in> set (prev # rs). length r = n \<and> list_all is_price r \<Longrightarrow>
   \<forall>q \<in> set (pct_rows prev rs). list_all (\<lambda>v. \<not> is_nan v) q"
proof (induction rs arbitrary: prev)
  case Nil
  show ?case by simp
next
  case (Cons r rs)
  then have "list_all (\<lambda>v. \<not> is_nan v) (map2 pct_cell prev r)"
    by (intro pct_row_price(2)) simp_all
  moreover from Cons.prems have "\<forall>q \<in> set (r # rs). length q = n \<and> list_all is_price q"
    by simp
  then have "\<forall>q \<in> set (pct_rows r rs). list_all (\<lambda>v. \<not> is_nan v) q" by (rule Cons.IH)
  ultimately show ?case by simp
qed

lemma returns_of_clean:
  assumes "\<forall>r \<in> set (rows f). length r = n \<and> list_all is_price r \<and> r \<noteq> []"
  shows "rows (dropna_any (pct_change pad f)) =
           (case rows f of [] \<Rightarrow> [] | r # rs \<Rightarrow> pct_rows r rs)"
proof (cases "rows f")
  case Nil
  then show ?thesis by (simp add: dropna_any_def pct_change_def ffill_def Let_def)
next
  case (Cons r rs)
  with assms have all: "\<forall>q \<in> set (r # rs). length q = n \<and> list_all is_price q"
    and "r \<noteq> []" by simp_all
  from all have "\<forall>q \<in> set rs. length q = length r \<and> (\<forall>c \<in> set q. \<not> is_nan c)"
    by (auto simp: list_all_iff is_price_not_nan)
  then have ff: "ffill_rows r rs = rs" by (rule ffill_rows_id)
  have g: "rows (if pad then ffill f else f) = r # rs"
    using Cons ff by (simp add: ffill_def)
  from \<open>r \<noteq> []\<close> have first: "\<not> list_all (\<lambda>v. \<not> is_nan v) (map (\<lambda>_. NaN) r)"
    by (cases r) (simp_all add: is_nan_def)
  have keep: "filter (list_all (\<lambda>v. \<not> is_nan v)) (pct_rows r rs) = pct_rows r rs"
    using pct_rows_no_nan [OF all] by (simp add: filter_id_conv)
  have "rows (dropna_any (pct_change pad f)) =
      filter (list_all (\<lambda>v. \<not> is_nan v)) (map (\<lambda>_. NaN) r # pct_rows r rs)"
    using g by (simp add: dropna_any_def pct_change_def Let_def)
  with first keep Cons show ?thesis by simp
qed

lemma set_prices_fields:
  "prices (set_prices lib self prices_df) = dropna_all prices_df"
  "returns (set_prices lib self prices_df) =
     dropna_any (pct_change (pct_change_pads lib) (dropna_all prices_df))"
  by (simp_all add: set_prices_def Let_def)

lemma columns_returns: "columns (dropna_any (pct_change pad (dropna_all f))) = columns f"
  by (simp add: dropna_any_def pct_change_def ffill_def dropna_all_def Let_def)

section \<open>Claims\<close>

text \<open>
  Claim C1. From a cached state with a non-empty return matrix and a covariance matrix of
  non-zero size, with distinct asset identifiers, and a solver that returns a result
  (feasible up to a tolerance when it reports success), \<open>optimize_sharpe_ratio\<close> returns a
  non-empty mapping over the assets whose weights sum to 1 within 1e-6 and lie in
  [0, 1], on the converged path and on the fallback path alike.
\<close>

theorem optimize_weights_valid:
  assumes "\<not> frame_empty (returns self)" and "matrix_size (cov_matrix self) \<noteq> 0"
    and "distinct (columns (returns self))"
    and "minimize_call lib self = Inr result"
    and "res_success result \<longrightarrow>
           length (res_x result) = length (columns (returns self)) \<and>
           slsqp_feasible tol (res_x result)"
    and "tol < 1"
  shows "\<exists>ws. optimize_sharpe_ratio lib self = Inr (zip (columns (returns self)) (map Fin ws)) \<and>
           length ws = length (columns (returns self)) \<and> ws \<noteq> [] \<and>
           \<bar>sum_list ws - 1\<bar> \<le> 1 / 10 ^ 6 \<and> (\<forall>w \<in> set ws. 0 \<le> w \<and> w \<le> 1)"
proof -
  let ?cols = "columns (returns self)"
  let ?n = "length ?cols"
  from assms(1) have pos: "0 < ?n" by (simp add: frame_empty_def)
  show ?thesis
  proof (cases "res_success result")
    case False
    define ws where "ws = replicate ?n (1 / real ?n)"
    have len: "length ws = ?n" by (simp add: ws_def)
    have eq: "equal_weights ?n = map Fin ws"
      using pos by (simp add: ws_def equal_weights_eq)
    have res: "optimize_sharpe_ratio lib self = Inr (zip ?cols (map Fin ws))"
      by (rule optimize_distinct [OF assms(1-4)]) (use False eq len in simp_all)
    have total: "sum_list ws = 1" unfolding ws_def by (rule sum_replicate_unit [OF pos])
    have bounds: "\<forall>w \<in> set ws. 0 \<le> w \<and> w \<le> 1"
      using unit_fraction_bounds [OF pos] by (simp add: ws_def)
    have ne: "ws \<noteq> []" using pos len by auto
    from res len ne total bounds show ?thesis by (intro exI [of _ ws]) simp
  next
    case True
    with assms(5) have lenx: "length (res_x result) = ?n"
      and feas: "slsqp_feasible tol (res_x result)" by simp_all
    from feasible_reals [OF feas] obtain rs
      where rs: "res_x result = map Fin rs" and near: "\<bar>sum_list rs - 1\<bar> \<le> tol" by blast
    define cs where "cs = map (\<lambda>r. max r 0) rs"
    define s where "s = sum_list cs"
    define ws where "ws = map (\<lambda>r. r / s) cs"
    from near assms(6) have "0 < sum_list rs" by linarith
    with sum_list_clip_ge [of rs] have spos: "0 < s" unfolding s_def cs_def by linarith
    have "renormalize (map Fin cs) = map Fin ws"
      unfolding ws_def s_def by (rule renormalize_Fin) (use spos s_def in simp)
    then have w: "renormalize (clip_weights (res_x result)) = map Fin ws"
      by (simp only: rs clip_weights_Fin cs_def)
    have len: "length ws = ?n" using lenx rs by (simp add: ws_def cs_def)
    have res: "optimize_sharpe_ratio lib self = Inr (zip ?cols (map Fin ws))"
      by (rule optimize_distinct [OF assms(1-4)]) (use True w len in simp_all)
    have total: "sum_list ws = 1"
      using spos by (simp add: ws_def sum_list_divide_real s_def [symmetric])
    have nonneg: "\<forall>x \<in> set cs. 0 \<le> x" by (auto simp: cs_def)
    have bounds: "\<forall>w \<in> set ws. 0 \<le> w \<and> w \<le> 1"
    proof
      fix w assume "w \<in> set ws"
      then obtain c where c: "c \<in> set cs" and wc: "w = c / s" by (auto simp: ws_def)
      from nonneg c have "0 \<le> c" by blast
      moreover from member_le_sum_list_real [OF nonneg c] have "c \<le> s" by (simp add: s_def)
      ultimately show "0 \<le> w \<and> w \<le> 1" using spos wc by simp
    qed
    have ne: "ws \<noteq> []" using pos len by auto
    from res len ne total bounds show ?thesis by (intro exI [of _ ws]) simp
  qed
qed

theorem optimize_weights_valid_witness:
  "\<not> frame_empty (returns example_optimizer) \<and>
   matrix_size (cov_matrix example_optimizer) \<noteq> 0 \<and>
   distinct (columns (returns example_optimizer)) \<and>
   minimize_call converging_lib example_optimizer =
     Inr \<lparr>res_success = True, res_x = [Fin (3 / 4), Fin (1 / 4)]\<rparr> \<and>
   slsqp_feasible (1 / 10 ^ 9) [Fin (3 / 4), Fin (1 / 4)] \<and>
   (\<exists>ws. optimize_sharpe_ratio converging_lib example_optimizer =
           Inr (zip [''AAA'', ''BBB''] (map Fin ws)) \<and>
         length ws = 2 \<and> \<bar>sum_list ws - 1\<bar> \<le> 1 / 10 ^ 6 \<and>
         (\<forall>w \<in> set ws. 0 \<le> w \<and> w \<le> 1))"
proof -
  let ?r = "\<lparr>res_success = True, res_x = [Fin (3 / 4), Fin (1 / 4)]\<rparr>"
  have h1: "\<not> frame_empty (returns example_optimizer)"
    by (simp add: example_optimizer_def example_returns_def frame_empty_def)
  have h2: "matrix_size (cov_matrix example_optimizer) \<noteq> 0"
    by (simp add: example_optimizer_def matrix_size_def)
  have h3: "distinct (columns (returns example_optimizer))"
    by (simp add: example_optimizer_def example_returns_def)
  have h4: "minimize_call converging_lib example_optimizer = Inr ?r"
    by (simp add: minimize_call_def converging_lib_def)
  have f: "slsqp_feasible (1 / 10 ^ 9) [Fin (3 / 4), Fin (1 / 4)]"
    by (simp add: slsqp_feasible_def)
  have h5: "res_success ?r \<longrightarrow>
      length (res_x ?r) = length (columns (returns example_optimizer)) \<and>
      slsqp_feasible (1 / 10 ^ 9) (res_x ?r)"
    using f by (simp add: example_optimizer_def example_returns_def)
  have h6: "(1 / 10 ^ 9 :: real) < 1" by simp
  have cols: "columns (returns example_optimizer) = [''AAA'', ''BBB'']"
    by (simp add: example_optimizer_def example_returns_def)
  from optimize_weights_valid [OF h1 h2 h3 h4 h5 h6]
  have "\<exists>ws. optimize_sharpe_ratio converging_lib example_optimizer =
           Inr (zip [''AAA'', ''BBB''] (map Fin ws)) \<and>
         length ws = 2 \<and> \<bar>sum_list ws - 1\<bar> \<le> 1 / 10 ^ 6 \<and>
         (\<forall>w \<in> set ws. 0 \<le> w \<and> w \<le> 1)"
    unfolding cols by auto
  with h1 h2 h3 h4 f show ?thesis by blast
qed



text \<open>
  Claim C3. When the cached return matrix is empty or the covariance matrix has size
  zero, \<open>optimize_sharpe_ratio\<close> returns the empty mapping and raises nothing; this is
  the case in particular after \<open>set_prices\<close> on a price matrix with at most one row left
  after cleaning.
\<close>

theorem degenerate_gives_empty:
  "(frame_empty (returns self) \<or> matrix_size (cov_matrix self) = 0
      \<longrightarrow> optimize_sharpe_ratio lib self = Inr []) \<and>
   (length (rows (dropna_all prices_df)) \<le> 1
      \<longrightarrow> optimize_sharpe_ratio lib (set_prices lib self prices_df) = Inr [])"
proof (intro conjI impI)
  assume "frame_empty (returns self) \<or> matrix_size (cov_matrix self) = 0"
  then show "optimize_sharpe_ratio lib self = Inr []"
    by (simp add: optimize_sharpe_ratio_def)
next
  assume le: "length (rows (dropna_all prices_df)) \<le> 1"
  let ?c = "dropna_all prices_df"
  have nonempty_rows: "\<forall>r \<in> set (rows ?c). r \<noteq> []"
    by (auto simp: dropna_all_def)
  from le consider "rows ?c = []" | r where "rows ?c = [r]"
    by (cases "rows ?c") (auto simp: length_Suc_conv)
  then have "rows (dropna_any (pct_change (pct_change_pads lib) ?c)) = []"
  proof cases
    case 1
    then show ?thesis by (simp add: dropna_any_def pct_change_def ffill_def Let_def)
  next
    case 2
    with nonempty_rows have "r \<noteq> []" by simp
    then obtain v vs where "r = v # vs" by (cases r) auto
    with 2 show ?thesis
      by (simp add: dropna_any_def pct_change_def ffill_def Let_def is_nan_def)
  qed
  then have "frame_empty (returns (set_prices lib self prices_df))"
    by (simp add: set_prices_def Let_def frame_empty_def)
  then show "optimize_sharpe_ratio lib (set_prices lib self prices_df) = Inr []"
    by (simp add: optimize_sharpe_ratio_def)
qed

theorem degenerate_gives_empty_witness:
  "frame_empty (returns (init_optimizer (Fin 0))) \<and>
   optimize_sharpe_ratio converging_lib (init_optimizer (Fin 0)) = Inr [] \<and>
   length (rows (dropna_all one_row_prices)) \<le> 1 \<and>
   optimize_sharpe_ratio converging_lib
     (set_prices converging_lib example_optimizer one_row_prices) = Inr []"
proof -
  have h1: "frame_empty (returns (init_optimizer (Fin 0)))"
    by (simp add: init_optimizer_def empty_frame_def frame_empty_def)
  have h2: "length (rows (dropna_all one_row_prices)) \<le> 1"
    by (simp add: dropna_all_def one_row_prices_def is_nan_def)
  from degenerate_gives_empty [of "init_optimizer (Fin 0)" converging_lib one_row_prices] h1
  have c1: "optimize_sharpe_ratio converging_lib (init_optimizer (Fin 0)) = Inr []"
    by blast
  from degenerate_gives_empty [of example_optimizer converging_lib one_row_prices] h2
  have c2: "optimize_sharpe_ratio converging_lib
              (set_prices converging_lib example_optimizer one_row_prices) = Inr []"
    by blast
  from h1 h2 c1 c2 show ?thesis by blast
qed

text \<open>
  Claim C4. Whenever the solver, called with the iteration cap 500 and the function
  tolerance 1e-9, reports non-success, \<open>optimize_sharpe_ratio\<close> returns a mapping whose
  keys are the N assets and in which every asset has exactly the weight 1/N.
\<close>

theorem fallback_is_equal_weight:
  assumes "\<not> frame_empty (returns self)" and "matrix_size (cov_matrix self) \<noteq> 0"
    and "minimize_call lib self = Inr result" and "\<not> res_success result"
  shows "\<exists>d. optimize_sharpe_ratio lib self = Inr d \<and>
           fst ` set d = set (columns (returns self)) \<and>
           (\<forall>t \<in> set (columns (returns self)).
              map_of d t = Some (Fin (1 / real (length (columns (returns self))))))"
proof -
  let ?cols = "columns (returns self)"
  let ?n = "length ?cols"
  let ?kvs = "zip ?cols (replicate ?n (Fin (1 / real ?n)))"
  from assms(1) have pos: "0 < ?n" by (simp add: frame_empty_def)
  have res: "optimize_sharpe_ratio lib self = Inr (py_dict ?kvs)"
    using assms pos by (simp add: optimize_unfold equal_weights_eq)
  have keys: "fst ` set ?kvs = set ?cols"
    by (metis length_replicate list.set_map map_fst_zip)
  have vals: "\<forall>p \<in> set ?kvs. snd p = Fin (1 / real ?n)"
    by (auto dest: set_zip_rightD)
  have "\<forall>t \<in> set ?cols. map_of (py_dict ?kvs) t = Some (Fin (1 / real ?n))"
    using py_dict_const [OF vals] keys by blast
  with res keys show ?thesis by (simp add: py_dict_keys)
qed

theorem fallback_is_equal_weight_witness:
  "\<not> frame_empty (returns example_optimizer) \<and>
   matrix_size (cov_matrix example_optimizer) \<noteq> 0 \<and>
   minimize_call failing_lib example_optimizer = Inr \<lparr>res_success = False, res_x = []\<rparr> \<and>
   (\<exists>d. optimize_sharpe_ratio failing_lib example_optimizer = Inr d \<and>
        fst ` set d = {''AAA'', ''BBB''} \<and>
        map_of d ''AAA'' = Some (Fin (1 / 2)) \<and> map_of d ''BBB'' = Some (Fin (1 / 2)))"
proof -
  have h1: "\<not> frame_empty (returns example_optimizer)"
    by (simp add: example_optimizer_def example_returns_def frame_empty_def)
  have h2: "matrix_size (cov_matrix example_optimizer) \<noteq> 0"
    by (simp add: example_optimizer_def matrix_size_def)
  have h3: "minimize_call failing_lib example_optimizer = Inr \<lparr>res_success = False, res_x = []\<rparr>"
    by (simp add: minimize_call_def failing_lib_def)
  have h4: "\<not> res_success \<lparr>res_success = False, res_x = []\<rparr>" by simp
  have cols: "columns (returns example_optimizer) = [''AAA'', ''BBB'']"
    by (simp add: example_optimizer_def example_returns_def)
  from fallback_is_equal_weight [OF h1 h2 h3 h4] h1 h2 h3 show ?thesis
    unfolding cols by auto
qed

text \<open>
  Claim C5, amended. \<open>set_prices\<close> keeps as prices the rows in which not all assets are
  missing, and derives the return series from them by \<open>pct_change().dropna()\<close>, which
  drops every row with a missing value. When every cell of the cleaned price matrix is a
  finite non-zero price, the return series has the columns of the price matrix and the
  shape of the cleaned matrix minus its first row, and each cell is
  \<open>(p_t - p_{t-1}) / p_{t-1}\<close>.
\<close>

theorem set_prices_returns:
  assumes "\<forall>r \<in> set (rows (dropna_all prices_df)). length r = n \<and> list_all is_price r"
  shows "let S = set_prices lib self prices_df in
           rows (prices S) = filter (\<lambda>r. \<not> list_all is_nan r) (rows prices_df) \<and>
           columns (returns S) = columns prices_df \<and>
           length (rows (returns S)) = length (rows (prices S)) - 1 \<and>
           (\<forall>t < length (rows (returns S)).
              length (rows (returns S) ! t) = n \<and>
              (\<forall>j < n. rows (returns S) ! t ! j =
                 Fin ((fin_val (rows (prices S) ! Suc t ! j) - fin_val (rows (prices S) ! t ! j))
                      / fin_val (rows (prices S) ! t ! j))))"
proof -
  let ?C = "dropna_all prices_df"
  let ?R = "dropna_any (pct_change (pct_change_pads lib) ?C)"
  have c: "rows ?C = filter (\<lambda>r. \<not> list_all is_nan r) (rows prices_df)"
    by (simp add: dropna_all_def)
  have "\<forall>r \<in> set (rows ?C). r \<noteq> []" by (auto simp: c)
  with assms have clean: "\<forall>r \<in> set (rows ?C). length r = n \<and> list_all is_price r \<and> r \<noteq> []"
    by blast
  note ret = returns_of_clean [OF clean, of "pct_change_pads lib"]
  have len: "length (rows ?R) = length (rows ?C) - 1"
    unfolding ret by (cases "rows ?C") (simp_all add: length_pct_rows)
  have cells: "length (rows ?R ! t) = n \<and>
      (\<forall>j < n. rows ?R ! t ! j =
         Fin ((fin_val (rows ?C ! Suc t ! j) - fin_val (rows ?C ! t ! j))
              / fin_val (rows ?C ! t ! j)))"
    if "t < length (rows ?R)" for t
  proof (cases "rows ?C")
    case Nil
    with that ret show ?thesis by simp
  next
    case (Cons r rs)
    with that ret have t: "t < length rs" by (simp add: length_pct_rows)
    from Cons ret have row: "rows ?R ! t = map2 pct_cell ((r # rs) ! t) (rs ! t)"
      using nth_pct_rows [OF t, of r] by simp
    from t have "(r # rs) ! t \<in> set (rows ?C)" "rs ! t \<in> set (rows ?C)"
      unfolding Cons by (simp_all add: nth_Cons')
    with clean have p: "length ((r # rs) ! t) = n" "list_all is_price ((r # rs) ! t)"
      and q: "length (rs ! t) = n" "list_all is_price (rs ! t)" by blast+
    from p q have l: "length ((r # rs) ! t) = length (rs ! t)" by simp
    from pct_row_price(1) [OF l p(2) q(2)] q(1) row
    have "length (rows ?R ! t) = n" by simp
    moreover have "rows ?R ! t ! j =
         Fin ((fin_val (rows ?C ! Suc t ! j) - fin_val (rows ?C ! t ! j))
              / fin_val (rows ?C ! t ! j))" if "j < n" for j
      using pct_row_price(3) [OF l p(2) q(2), of j] that q(1) row Cons by simp
    ultimately show ?thesis by blast
  qed
  from c len cells show ?thesis
    by (simp add: set_prices_fields columns_returns Let_def)
qed

theorem set_prices_returns_witness:
  "list_all (\<lambda>r. length r = 2 \<and> list_all is_price r) (rows (dropna_all example_prices)) \<and>
   rows (prices (set_prices converging_lib example_optimizer example_prices)) =
     [[Fin 100, Fin 50], [Fin 110, Fin 40], [Fin 121, Fin 50]] \<and>
   length (rows (returns (set_prices converging_lib example_optimizer example_prices))) = 2 \<and>
   rows (returns (set_prices converging_lib example_optimizer example_prices)) ! 0 ! 0 =
     Fin (1 / 10) \<and>
   rows (returns (set_prices converging_lib example_optimizer example_prices)) ! 1 ! 1 =
     Fin (1 / 4)"
proof -
  let ?S = "set_prices converging_lib example_optimizer example_prices"
  have c: "rows (dropna_all example_prices) =
      [[Fin 100, Fin 50], [Fin 110, Fin 40], [Fin 121, Fin 50]]"
    by (simp add: dropna_all_def example_prices_def is_nan_def)
  have h: "\<forall>r \<in> set (rows (dropna_all example_prices)). length r = 2 \<and> list_all is_price r"
    by (simp add: c is_price_def)
  have p: "rows (prices ?S) = [[Fin 100, Fin 50], [Fin 110, Fin 40], [Fin 121, Fin 50]]"
    by (simp add: set_prices_fields c)
  note r = set_prices_returns [OF h, of converging_lib example_optimizer, unfolded Let_def]
  from r p have len: "length (rows (returns ?S)) = 2" by simp
  from r len have "rows (returns ?S) ! 0 ! 0 =
      Fin ((fin_val (rows (prices ?S) ! Suc 0 ! 0) - fin_val (rows (prices ?S) ! 0 ! 0))
           / fin_val (rows (prices ?S) ! 0 ! 0))"
    by simp
  then have a: "rows (returns ?S) ! 0 ! 0 = Fin (1 / 10)" by (simp add: p)
  from r len have "rows (returns ?S) ! 1 ! 1 =
      Fin ((fin_val (rows (prices ?S) ! Suc 1 ! 1) - fin_val (rows (prices ?S) ! 1 ! 1))
           / fin_val (rows (prices ?S) ! 1 ! 1))"
    by simp
  then have b: "rows (returns ?S) ! 1 ! 1 = Fin (1 / 4)" by (simp add: p)
  from h have "list_all (\<lambda>r. length r = 2 \<and> list_all is_price r)
      (rows (dropna_all example_prices))"
    by (simp add: list_all_iff)
  with p len a b show ?thesis by blast
qed

text \<open>
  Claim C5 as first stated gives the return series the shape of the cleaned price matrix
  minus its first row for every price matrix. A matrix of three rows whose first row
  misses one asset keeps its three rows, and its return series has one row, whether or
  not \<open>pct_change\<close> pads.
\<close>

theorem partial_missing_counterexample:
  "length (rows (prices (set_prices converging_lib example_optimizer leading_nan_prices))) = 3 \<and>
   length (rows (returns (set_prices converging_lib example_optimizer leading_nan_prices))) = 1 \<and>
   length (rows (returns (set_prices failing_lib example_optimizer leading_nan_prices))) = 1"
  by (simp add: set_prices_fields dropna_all_def dropna_any_def pct_change_def ffill_def
      leading_nan_prices_def converging_lib_def failing_lib_def is_nan_def pct_cell_def
      np_sub_def Let_def)




text \<open>
  Claim C7, amended. An asset with all four metrics present and passing scores 4 plus the
  ROE bonus \<open>min(ROE - min_roe, 0.2)\<close>, hence at least 4.0 and at most 4.2. An asset with
  exactly one metric missing and the other three passing scores exactly 3.0 when the
  missing metric is ROE, and 3.0 plus the ROE bonus, between 3.0 and 3.2, when it is one
  of the other three.
\<close>

theorem score_row_values:
  "(roe_ok self row \<and> debt_ok self row \<and> margin_ok self row \<and> peg_ok self row \<longrightarrow>
      score_row self row = 4 + roe_bonus self row \<and>
      4 \<le> score_row self row \<and> score_row self row \<le> 42 / 10) \<and>
   (ROE row = None \<and> debt_ok self row \<and> margin_ok self row \<and> peg_ok self row \<longrightarrow>
      score_row self row = 3) \<and>
   (roe_ok self row \<and>
    (DebtToEquity row = None \<and> margin_ok self row \<and> peg_ok self row \<or>
     debt_ok self row \<and> ProfitMargin row = None \<and> peg_ok self row \<or>
     debt_ok self row \<and> margin_ok self row \<and> PEG row = None) \<longrightarrow>
      score_row self row = 3 + roe_bonus self row \<and>
      3 \<le> score_row self row \<and> score_row self row \<le> 32 / 10)"
proof (intro conjI impI)
  assume a: "roe_ok self row \<and> debt_ok self row \<and> margin_ok self row \<and> peg_ok self row"
  then have s: "score_row self row = 4 + roe_bonus self row" by (simp add: score_row_sum)
  from a roe_bonus_bounds [of self row]
  have "0 \<le> roe_bonus self row" "roe_bonus self row \<le> 2 / 10" by simp_all
  with s show "score_row self row = 4 + roe_bonus self row"
    "4 \<le> score_row self row" "score_row self row \<le> 42 / 10" by simp_all
next
  assume "ROE row = None \<and> debt_ok self row \<and> margin_ok self row \<and> peg_ok self row"
  then show "score_row self row = 3" by (simp add: score_row_sum roe_ok_def)
next
  assume a: "roe_ok self row \<and>
    (DebtToEquity row = None \<and> margin_ok self row \<and> peg_ok self row \<or>
     debt_ok self row \<and> ProfitMargin row = None \<and> peg_ok self row \<or>
     debt_ok self row \<and> margin_ok self row \<and> PEG row = None)"
  then have s: "score_row self row = 3 + roe_bonus self row"
    by (auto simp: score_row_sum debt_ok_def margin_ok_def peg_ok_def)
  from a roe_bonus_bounds [of self row]
  have "0 \<le> roe_bonus self row" "roe_bonus self row \<le> 2 / 10" by simp_all
  with s show "score_row self row = 3 + roe_bonus self row"
    "3 \<le> score_row self row" "score_row self row \<le> 32 / 10" by simp_all
qed

theorem score_row_values_witness:
  "roe_ok default_screener row_all \<and> debt_ok default_screener row_all \<and>
   margin_ok default_screener row_all \<and> peg_ok default_screener row_all \<and>
   score_row default_screener row_all = 41 / 10 \<and>
   ROE row_no_roe = None \<and> debt_ok default_screener row_no_roe \<and>
   margin_ok default_screener row_no_roe \<and> peg_ok default_screener row_no_roe \<and>
   score_row default_screener row_no_roe = 3 \<and>
   roe_ok default_screener row_no_peg \<and> debt_ok default_screener row_no_peg \<and>
   margin_ok default_screener row_no_peg \<and> PEG row_no_peg = None \<and>
   score_row default_screener row_no_peg = 31 / 10"
proof -
  have a: "roe_ok default_screener row_all \<and> debt_ok default_screener row_all \<and>
      margin_ok default_screener row_all \<and> peg_ok default_screener row_all"
    by (simp add: roe_ok_def debt_ok_def margin_ok_def peg_ok_def default_screener_def
        row_all_def)
  have b: "ROE row_no_roe = None \<and> debt_ok default_screener row_no_roe \<and>
      margin_ok default_screener row_no_roe \<and> peg_ok default_screener row_no_roe"
    by (simp add: debt_ok_def margin_ok_def peg_ok_def default_screener_def row_no_roe_def)
  have c: "roe_ok default_screener row_no_peg \<and> debt_ok default_screener row_no_peg \<and>
      margin_ok default_screener row_no_peg \<and> PEG row_no_peg = None"
    by (simp add: roe_ok_def debt_ok_def margin_ok_def default_screener_def row_no_peg_def)
  have ba: "roe_bonus default_screener row_all = 1 / 10"
    by (simp add: roe_bonus_def default_screener_def row_all_def)
  have bc: "roe_bonus default_screener row_no_peg = 1 / 10"
    by (simp add: roe_bonus_def default_screener_def row_no_peg_def)
  from score_row_values [of default_screener row_all] a ba
  have sa: "score_row default_screener row_all = 41 / 10" by simp
  from score_row_values [of default_screener row_no_roe] b
  have sb: "score_row default_screener row_no_roe = 3" by simp
  from score_row_values [of default_screener row_no_peg] c bc
  have sc: "score_row default_screener row_no_peg = 31 / 10" by simp
  from a b c sa sb sc show ?thesis by simp
qed

text \<open>
  Claim C7 as first stated gives exactly 3.0 to every asset with one metric missing and
  three passing. With the default thresholds, an asset with ROE 0.25, debt/equity 0.5,
  profit margin 0.2 and no PEG scores 3.1.
\<close>

theorem one_missing_counterexample:
  "roe_ok default_screener row_no_peg \<and> debt_ok default_screener row_no_peg \<and>
   margin_ok default_screener row_no_peg \<and> PEG row_no_peg = None \<and>
   score_row default_screener row_no_peg = 31 / 10 \<and>
   score_row default_screener row_no_peg \<noteq> 3"
  by (simp add: score_row_def roe_ok_def debt_ok_def margin_ok_def default_screener_def
      row_no_peg_def Let_def)

text \<open>
  Claim C8, amended. With a library sort that returns the rows it is given, in descending
  order, and \<open>top_n\<close> not negative (a negative \<open>top_n\<close> makes \<open>head\<close> drop that many rows
  from the end instead): the result of \<open>filter_stocks\<close> is in descending order of score
  and has at most \<open>top_n\<close> rows. Equal-score assets keep their input order when the
  library sort is stable on ties, which the code does not request (\<open>sort_values\<close> is
  called with its default \<open>kind\<close>); the result is then the first \<open>top_n\<close> rows of the stable
  descending sort.
\<close>

theorem filter_stocks_ranked:
  assumes "sorts_descending (sort_values_desc lib)" and "0 \<le> top_n self"
  shows "sorted_wrt (\<lambda>a b. snd b \<le> snd a) (filter_stocks lib self tickers) \<and>
         int (length (filter_stocks lib self tickers)) \<le> top_n self \<and>
         (stable_on_ties (sort_values_desc lib) \<longrightarrow>
            filter_stocks lib self tickers =
              take (nat (top_n self)) (stable_sort_desc (scored_rows lib self tickers)))"
proof -
  let ?out = "filter_stocks lib self tickers"
  let ?sc = "scored_rows lib self tickers"
  let ?srt = "sort_values_desc lib"
  from assms(1) have s: "sorted_wrt (\<lambda>a b. snd b \<le> snd a) (?srt ?sc)"
    by (simp add: sorts_descending_def)
  have out: "?out = head (top_n self) (?srt ?sc)"
  proof -
    from filter_stocks_unfold [of lib self tickers] show ?thesis
    proof
      assume "?out = [] \<and> ?sc = []"
      with sorts_descending_length [OF assms(1), of ?sc] show ?thesis
        by (simp add: head_def)
    qed
  qed
  have "sorted_wrt (\<lambda>a b. snd b \<le> snd a) ?out"
    unfolding out using s by (rule sorted_wrt_head)
  moreover have "int (length ?out) \<le> top_n self"
    unfolding out using assms(2) by (rule length_head)
  moreover have "?out = take (nat (top_n self)) (stable_sort_desc ?sc)"
    if "stable_on_ties ?srt"
    using stable_sort_unique [OF assms(1) that, of ?sc] assms(2) by (simp add: out head_def)
  ultimately show ?thesis by blast
qed

theorem filter_stocks_ranked_witness:
  "sorts_descending (sort_values_desc stable_screenlib) \<and> 0 \<le> top_n top1_screener \<and>
   stable_on_ties (sort_values_desc stable_screenlib) \<and>
   sorted_wrt (\<lambda>a b. snd b \<le> snd a)
     (filter_stocks stable_screenlib top1_screener [''BBB'', ''AAA'']) \<and>
   int (length (filter_stocks stable_screenlib top1_screener [''BBB'', ''AAA'']))
     \<le> top_n top1_screener \<and>
   filter_stocks stable_screenlib top1_screener [''BBB'', ''AAA''] = [(row_all, 41 / 10)]"
proof -
  have a: "sorts_descending (sort_values_desc stable_screenlib)"
    by (simp add: stable_screenlib_def stable_sort_desc_contract)
  have b: "0 \<le> top_n top1_screener" by (simp add: top1_screener_def)
  have c: "stable_on_ties (sort_values_desc stable_screenlib)"
    by (simp add: stable_screenlib_def stable_sort_desc_stable)
  have n: "top_n top1_screener = 1" by (simp add: top1_screener_def)
  have f: "fetched stable_screenlib [''BBB'', ''AAA''] = [row_no_peg, row_all]"
    by (simp add: fetched_def List.map_filter_def stable_screenlib_def example_fetch_def)
  have e: "take (nat (top_n top1_screener))
             (stable_sort_desc (scored_rows stable_screenlib top1_screener [''BBB'', ''AAA''])) =
           [(row_all, 41 / 10)]"
    unfolding scored_rows_def f n
    by (simp add: top1_masks top1_scores stable_sort_desc_def)
  note r = filter_stocks_ranked [OF a b, where tickers = "[''BBB'', ''AAA'']"]
  from r c e
  have "filter_stocks stable_screenlib top1_screener [''BBB'', ''AAA''] = [(row_all, 41 / 10)]"
    by simp
  with r a b c show ?thesis by blast
qed

text \<open>
  Claim C8 as first stated has equal-score assets keep their input order, and the result
  have at most \<open>top_n\<close> rows. For the tickers CCC, DDD, AAA, BBB, of which CCC and DDD
  score the same, the only descending orders are AAA, BBB, CCC, DDD and
  AAA, BBB, DDD, CCC; a sort that meets the contract of \<open>sort_values\<close> and breaks the tie
  the other way returns the latter. And with \<open>top_n = -1\<close>, \<open>head\<close> keeps all rows but the
  last: two rows of three.
\<close>

theorem tie_order_counterexample:
  "sorts_descending (sort_values_desc reversing_screenlib) \<and>
   score_row default_screener row_no_roe = score_row default_screener row_ddd \<and>
   filter_stocks reversing_screenlib default_screener [''CCC'', ''DDD'', ''AAA'', ''BBB''] =
     [(row_all, 41 / 10), (row_no_peg, 31 / 10), (row_ddd, 3), (row_no_roe, 3)] \<and>
   top_n minus1_screener = - 1 \<and>
   length (filter_stocks stable_screenlib minus1_screener [''AAA'', ''BBB'', ''CCC'']) = 2"
proof -
  have a: "sorts_descending (sort_values_desc reversing_screenlib)"
    by (simp add: reversing_screenlib_def reversing_sort_desc_contract)
  have f: "List.map_filter (get_metrics reversing_screenlib) [''CCC'', ''DDD'', ''AAA'', ''BBB''] =
      [row_no_roe, row_ddd, row_all, row_no_peg]"
    by (simp add: List.map_filter_def reversing_screenlib_def example_fetch_def)
  have g: "sort_values_desc reversing_screenlib = reversing_sort_desc"
    "top_n default_screener = 15"
    by (simp_all add: reversing_screenlib_def default_screener_def)
  have c: "filter_stocks reversing_screenlib default_screener
             [''CCC'', ''DDD'', ''AAA'', ''BBB''] =
     [(row_all, 41 / 10), (row_no_peg, 31 / 10), (row_ddd, 3), (row_no_roe, 3)]"
    unfolding filter_stocks_def f g
    by (simp add: example_masks example_scores reversing_sort_desc_def head_def)
  have n: "top_n minus1_screener = - 1" by (simp add: minus1_screener_def)
  have f': "List.map_filter (get_metrics stable_screenlib) [''AAA'', ''BBB'', ''CCC''] =
      [row_all, row_no_peg, row_no_roe]"
    by (simp add: List.map_filter_def stable_screenlib_def example_fetch_def)
  have g': "sort_values_desc stable_screenlib = stable_sort_desc"
    by (simp add: stable_screenlib_def)
  have l: "length (stable_sort_desc xs) = length xs" for xs
    by (simp add: stable_sort_desc_def)
  have d: "length (filter_stocks stable_screenlib minus1_screener [''AAA'', ''BBB'', ''CCC'']) = 2"
    unfolding filter_stocks_def f' g' n
    by (simp add: minus1_masks head_def l)
  from a c n d example_scores show ?thesis by simp
qed

text \<open>
  Claim C10. On the converged path, when the solver result meets the box bounds and the
  sum-to-1 constraint up to a tolerance below 1, the sum of the clipped weights
  \<open>max(w_i, 0)\<close> is a strictly positive number, so the renormalising division is by a
  non-zero number and every weight it yields is finite.
\<close>

theorem clipped_sum_positive:
  assumes "tol < 1" and "slsqp_feasible tol x"
  shows "\<exists>s. np_sum (clip_weights x) = Fin s \<and> 0 < s \<and>
             (\<forall>w \<in> set (renormalize (clip_weights x)). \<exists>r. w = Fin r)"
proof -
  from feasible_reals [OF assms(2)] obtain rs
    where rs: "x = map Fin rs" and near: "\<bar>sum_list rs - 1\<bar> \<le> tol" by blast
  let ?cs = "map (\<lambda>r. max r 0) rs"
  from near assms(1) have "0 < sum_list rs" by linarith
  with sum_list_clip_ge [of rs] have pos: "0 < sum_list ?cs" by linarith
  have "np_sum (clip_weights x) = Fin (sum_list ?cs)"
    by (simp only: rs clip_weights_Fin np_sum_Fin)
  moreover have "renormalize (map Fin ?cs) = map Fin (map (\<lambda>r. r / sum_list ?cs) ?cs)"
    by (rule renormalize_Fin) (use pos in simp)
  then have "renormalize (clip_weights x) = map Fin (map (\<lambda>r. r / sum_list ?cs) ?cs)"
    by (simp only: rs clip_weights_Fin)
  then have "\<forall>w \<in> set (renormalize (clip_weights x)). \<exists>r. w = Fin r"
    by auto
  ultimately show ?thesis using pos by blast
qed

theorem clipped_sum_positive_witness:
  "(1 / 10 ^ 9 :: real) < 1 \<and>
   slsqp_feasible (1 / 10 ^ 9) [Fin (3 / 4), Fin (- 1 / 10 ^ 10), Fin (1 / 4)] \<and>
   np_sum (clip_weights [Fin (3 / 4), Fin (- 1 / 10 ^ 10), Fin (1 / 4)]) = Fin 1 \<and>
   renormalize (clip_weights [Fin (3 / 4), Fin (- 1 / 10 ^ 10), Fin (1 / 4)]) =
     [Fin (3 / 4), Fin 0, Fin (1 / 4)]"
proof -
  have h1: "(1 / 10 ^ 9 :: real) < 1" by simp
  have h2: "slsqp_feasible (1 / 10 ^ 9) [Fin (3 / 4), Fin (- 1 / 10 ^ 10), Fin (1 / 4)]"
    by (simp add: slsqp_feasible_def)
  have c: "np_sum (clip_weights [Fin (3 / 4), Fin (- 1 / 10 ^ 10), Fin (1 / 4)]) = Fin 1"
    by (simp add: clip_weights_def)
  have d: "renormalize (clip_weights [Fin (3 / 4), Fin (- 1 / 10 ^ 10), Fin (1 / 4)]) =
     [Fin (3 / 4), Fin 0, Fin (1 / 4)]"
    by (simp add: clip_weights_def renormalize_def)
  from clipped_sum_positive [OF h1 h2] h1 h2 c d show ?thesis
    by blast
qed

end
